theory Spec2Isabelle
  imports Main "HOL-Library.Signed_Division"
begin

section \<open>State types and their constants\<close>

text \<open>
  \<^verbatim>\<open>type RequestStateType int\<close> and \<^verbatim>\<open>type ContainerStateType int\<close>: both are
  plain integers in the source, so a caller can hand over any integer, not only a
  declared constant. The states are only ever compared and used as indices, never
  added, so the width of Go's \<^verbatim>\<open>int\<close> plays no role.
\<close>

type_synonym RequestStateType = int
type_synonym ContainerStateType = int

text \<open>
  The constants are declared in \<^verbatim>\<open>const ( ... = iota ... )\<close> blocks: the value of
  each name is the position of its line in the block, counted from zero.
\<close>

definition iota :: "string list \<Rightarrow> string \<Rightarrow> int" where
  "iota block name = int (length (takeWhile (\<lambda>c. c \<noteq> name) block))"

definition RequestStateType_consts :: "string list" where
  "RequestStateType_consts =
     [''RequestStateNone'', ''RequestStateWait'', ''RequestStateExec'',
      ''RequestStateDone'', ''RequestStateMax'']"

definition RequestStateNone :: RequestStateType where
  "RequestStateNone = iota RequestStateType_consts ''RequestStateNone''"

definition RequestStateWait :: RequestStateType where
  "RequestStateWait = iota RequestStateType_consts ''RequestStateWait''"

definition RequestStateExec :: RequestStateType where
  "RequestStateExec = iota RequestStateType_consts ''RequestStateExec''"

definition RequestStateDone :: RequestStateType where
  "RequestStateDone = iota RequestStateType_consts ''RequestStateDone''"

definition RequestStateMax :: RequestStateType where
  "RequestStateMax = iota RequestStateType_consts ''RequestStateMax''"

definition ContainerStateType_consts :: "string list" where
  "ContainerStateType_consts =
     [''ContainerStateNone'', ''ContainerStateWait'', ''ContainerStateStart'',
      ''ContainerStateIdle'', ''ContainerStatePaused'', ''ContainerStateBusy'',
      ''ContainerStateDone'', ''ContainerStateMax'']"

definition ContainerStateNone :: ContainerStateType where
  "ContainerStateNone = iota ContainerStateType_consts ''ContainerStateNone''"

definition ContainerStateWait :: ContainerStateType where
  "ContainerStateWait = iota ContainerStateType_consts ''ContainerStateWait''"

definition ContainerStateStart :: ContainerStateType where
  "ContainerStateStart = iota ContainerStateType_consts ''ContainerStateStart''"

definition ContainerStateIdle :: ContainerStateType where
  "ContainerStateIdle = iota ContainerStateType_consts ''ContainerStateIdle''"

definition ContainerStatePaused :: ContainerStateType where
  "ContainerStatePaused = iota ContainerStateType_consts ''ContainerStatePaused''"

definition ContainerStateBusy :: ContainerStateType where
  "ContainerStateBusy = iota ContainerStateType_consts ''ContainerStateBusy''"

definition ContainerStateDone :: ContainerStateType where
  "ContainerStateDone = iota ContainerStateType_consts ''ContainerStateDone''"

definition ContainerStateMax :: ContainerStateType where
  "ContainerStateMax = iota ContainerStateType_consts ''ContainerStateMax''"

text \<open>The declared states of each type, in declaration order, without the sentinel.\<close>

definition request_states :: "RequestStateType list" where
  "request_states =
     [RequestStateNone, RequestStateWait, RequestStateExec, RequestStateDone]"

definition container_states :: "ContainerStateType list" where
  "container_states =
     [ContainerStateNone, ContainerStateWait, ContainerStateStart, ContainerStateIdle,
      ContainerStatePaused, ContainerStateBusy, ContainerStateDone]"

section \<open>Arrays and the label tables\<close>

text \<open>
  A Go array literal \<^verbatim>\<open>[n]string{...}\<close> with fewer than \<open>n\<close> elements is filled up
  with the empty string. Indexing an array outside \<open>0 .. n - 1\<close> is a run-time panic.
\<close>

datatype panic = IndexOutOfRange int nat

definition array_lit :: "int \<Rightarrow> string list \<Rightarrow> string list" where
  "array_lit n xs = xs @ replicate (nat n - length xs) ''''"

definition index :: "'a list \<Rightarrow> int \<Rightarrow> panic + 'a" where
  "index xs i =
     (if 0 \<le> i \<and> i < int (length xs) then Inr (xs ! nat i)
      else Inl (IndexOutOfRange i (length xs)))"

definition containerStateKeys :: "string list" where
  "containerStateKeys = array_lit ContainerStateMax
     [''none'', ''wait'', ''start'', ''idle'', ''paused'', ''busy'', ''done'']"

definition containerGaugeKeys :: "string list" where
  "containerGaugeKeys = array_lit ContainerStateMax
     ['''', ''container_wait_total'', ''container_start_total'',
      ''container_idle_total'', ''container_paused_total'', ''container_busy_total'']"

definition containerTimeKeys :: "string list" where
  "containerTimeKeys = array_lit ContainerStateMax
     ['''', ''container_wait_duration_seconds'', ''container_start_duration_seconds'',
      ''container_idle_duration_seconds'', ''container_paused_duration_seconds'',
      ''container_busy_duration_seconds'']"

section \<open>Time\<close>

text \<open>
  A \<^verbatim>\<open>time.Time\<close> is modelled as the number of nanoseconds since the zero instant
  (the value of an uninitialised \<^verbatim>\<open>time.Time\<close>), a \<^verbatim>\<open>time.Duration\<close> as a
  signed 64-bit count of nanoseconds. \<^verbatim>\<open>t.Sub(u)\<close> is the difference, replaced by
  the largest or smallest duration when it does not fit. Dividing a duration uses
  Go's integer division, which truncates towards zero (\<open>sdiv\<close>).
\<close>

type_synonym Time = int
type_synonym Duration = int

definition IsZero :: "Time \<Rightarrow> bool" where
  "IsZero t = (t = 0)"

definition minDuration :: Duration where
  "minDuration = - (2 ^ 63)"

definition maxDuration :: Duration where
  "maxDuration = 2 ^ 63 - 1"

definition Sub :: "Time \<Rightarrow> Time \<Rightarrow> Duration" where
  "Sub t u =
     (if t - u < minDuration then minDuration
      else if maxDuration < t - u then maxDuration
      else t - u)"

definition Millisecond :: Duration where
  "Millisecond = 1000000"

section \<open>Trackers, calls and observable effects\<close>

text \<open>
  The two tracker structs. The mutex field is not a field of the model: it is held
  only inside \<open>UpdateState\<close> and \<open>GetState\<close>, and the part of each function that
  runs under it is a function of its own below.
\<close>

record containerState =
  state :: ContainerStateType
  start :: Time

record requestState =
  state :: RequestStateType
  start :: Time

text \<open>
  A \<^verbatim>\<open>*slotQueue\<close> is a pointer: \<open>None\<close> is \<^verbatim>\<open>nil\<close>, \<open>Some a\<close> the queue at
  address \<open>a\<close>. Of a \<^verbatim>\<open>call\<close> only the fields that \<open>UpdateState\<close> reads are kept;
  the \<^verbatim>\<open>*call\<close> argument itself is taken to be non-nil, since the function reads
  \<^verbatim>\<open>call.slots\<close> before anything else.
\<close>

type_synonym slotQueue = nat

record call =
  AppID :: string
  FnID :: string
  Image :: string
  slots :: "slotQueue option"

text \<open>
  What a call does to the outside, in the order it does it: the four hooks of the
  slot queue, and the three kinds of \<^verbatim>\<open>stats.Record\<close>. \<open>HotFunction tg v\<close> is a
  record of value \<open>v\<close> on \<^verbatim>\<open>hotFunctionMeasure\<close>: \<open>tg\<close> is \<open>Some (app, fn, image)\<close>
  when the record is made on a context that carries the three identity tags, and
  \<open>None\<close> when it is made on the context \<open>UpdateState\<close> was called with, unchanged.
  \<open>ContainerGauge i v\<close> and \<open>ContainerTime i v\<close>
  are records of value \<open>v\<close> on \<^verbatim>\<open>containerGaugeMeasures[i]\<close> and
  \<^verbatim>\<open>containerTimeMeasures[i]\<close> (the measure tables are declared outside this file and
  are identified by the index).
\<close>

type_synonym tags = "string \<times> string \<times> string"

datatype event =
    EnterRequestState slotQueue RequestStateType
  | ExitRequestState slotQueue RequestStateType
  | EnterContainerState slotQueue ContainerStateType
  | ExitContainerState slotQueue ContainerStateType
  | HotFunction "tags option" int
  | ContainerGauge ContainerStateType int
  | ContainerTime ContainerStateType int

text \<open>
  The result of a call: the tracker as the call leaves it, the effects in order, and
  the panic that ended the call, if one did. A panic does not undo the update of the
  tracker or the effects before it.
\<close>

record 'a outcome =
  tracker :: 'a
  emitted :: "event list"
  panicked :: "panic option"

definition NewRequestState :: requestState where
  "NewRequestState = \<lparr>requestState.state = 0, requestState.start = 0\<rparr>"

definition NewContainerState :: containerState where
  "NewContainerState = \<lparr>containerState.state = 0, containerState.start = 0\<rparr>"

section \<open>The request tracker\<close>

text \<open>
  The part of \<open>requestState.UpdateState\<close> between \<^verbatim>\<open>Lock\<close> and \<^verbatim>\<open>Unlock\<close>.
  \<open>clock\<close> is what \<^verbatim>\<open>time.Now()\<close> returns if it is called. The result is the
  tracker and the locals \<open>now\<close> and \<open>oldState\<close>, which keep their zero values when
  the branch is not taken.
\<close>

definition requestState_locked ::
  "requestState \<Rightarrow> Time \<Rightarrow> RequestStateType \<Rightarrow> requestState \<times> Time \<times> RequestStateType" where
  "requestState_locked c clock newState =
     (if requestState.state c < newState
      then (c\<lparr>requestState.state := newState, requestState.start := clock\<rparr>,
            clock, requestState.state c)
      else (c, 0, 0))"

definition requestState_UpdateState ::
  "requestState \<Rightarrow> Time \<Rightarrow> RequestStateType \<Rightarrow> slotQueue option \<Rightarrow> requestState outcome" where
  "requestState_UpdateState c clock newState slots' =
     (case requestState_locked c clock newState of (c', now, oldState) \<Rightarrow>
        if IsZero now then \<lparr>tracker = c', emitted = [], panicked = None\<rparr>
        else
          \<lparr>tracker = c',
           emitted = (case slots' of
                        None \<Rightarrow> []
                      | Some q \<Rightarrow> [EnterRequestState q newState, ExitRequestState q oldState]),
           panicked = None\<rparr>)"

section \<open>The container tracker\<close>

definition isIdleState :: "ContainerStateType \<Rightarrow> bool" where
  "isIdleState st = (st = ContainerStateIdle \<or> st = ContainerStatePaused)"

definition containerState_GetState :: "containerState \<Rightarrow> panic + string" where
  "containerState_GetState c = index containerStateKeys (containerState.state c)"

text \<open>
  \<open>setHot\<close> calls \<^verbatim>\<open>tag.New\<close> with three \<^verbatim>\<open>tag.Upsert\<close> mutators and drops the
  error: \<^verbatim>\<open>ctx, _ = tag.New(...)\<close>. The tag library (\<^verbatim>\<open>go.opencensus.io/tag\<close>) is
  not part of the repository; the two definitions below follow its rules. A tag
  value is accepted when it has at most 255 bytes, all of them printable ASCII (32
  to 126). \<^verbatim>\<open>tag.New\<close> applies the mutators in order; when one fails it returns the
  context it was given together with the error, otherwise the context with the new
  tags. (The tags already on the incoming context went through the same check when
  they were set.)
\<close>

definition checkValue :: "string \<Rightarrow> bool" where
  "checkValue v =
     (length v \<le> 255 \<and> list_all (\<lambda>c. 32 \<le> (of_char c :: nat) \<and> (of_char c :: nat) \<le> 126) v)"

definition tag_New :: "string \<Rightarrow> string \<Rightarrow> string \<Rightarrow> tags option" where
  "tag_New appId fnId imageName =
     (if \<not> checkValue appId then None
      else if \<not> checkValue fnId then None
      else if \<not> checkValue imageName then None
      else Some (appId, fnId, imageName))"

definition setHot :: "string \<Rightarrow> string \<Rightarrow> string \<Rightarrow> ContainerStateType \<Rightarrow> event list" where
  "setHot appId fnId imageName st =
     (if st \<noteq> ContainerStateStart \<and> st \<noteq> ContainerStateDone then []
      else
        let ctx' = tag_New appId fnId imageName;
            isHotState = (if st = ContainerStateStart then 1 else - 1)
        in [HotFunction ctx' isHotState])"

text \<open>
  The part of \<open>containerState.UpdateState\<close> under the lock, with the locals
  \<open>now\<close>, \<open>oldState\<close> and \<open>before\<close> (written \<open>before_t\<close> below).
\<close>

definition containerState_locked ::
  "containerState \<Rightarrow> Time \<Rightarrow> ContainerStateType \<Rightarrow>
     containerState \<times> Time \<times> ContainerStateType \<times> Time" where
  "containerState_locked c clock newState =
     (if containerState.state c < newState \<or>
         (containerState.state c = ContainerStatePaused \<and> newState = ContainerStateIdle) \<or>
         (containerState.state c = ContainerStateBusy \<and> isIdleState newState)
      then (c\<lparr>containerState.state := newState, containerState.start := clock\<rparr>,
            clock, containerState.state c, containerState.start c)
      else (c, 0, 0, 0))"

text \<open>The part after the lock is released, given the locals.\<close>

definition containerState_unlocked ::
  "containerState \<Rightarrow> Time \<Rightarrow> ContainerStateType \<Rightarrow> Time \<Rightarrow> ContainerStateType \<Rightarrow> call \<Rightarrow>
     containerState outcome" where
  "containerState_unlocked c' now oldState before_t newState cl =
     (if IsZero now then \<lparr>tracker = c', emitted = [], panicked = None\<rparr>
      else
        let e1 = (case slots cl of
                    None \<Rightarrow> []
                  | Some q \<Rightarrow>
                      setHot (AppID cl) (FnID cl) (Image cl) newState @
                      [EnterContainerState q newState, ExitContainerState q oldState])
        in
        case index containerGaugeKeys oldState of
          Inl p \<Rightarrow> \<lparr>tracker = c', emitted = e1, panicked = Some p\<rparr>
        | Inr gaugeKey \<Rightarrow>
            let e2 = e1 @ (if gaugeKey \<noteq> '''' then [ContainerGauge oldState (- 1)] else [])
            in
            case index containerTimeKeys oldState of
              Inl p \<Rightarrow> \<lparr>tracker = c', emitted = e2, panicked = Some p\<rparr>
            | Inr timeKey \<Rightarrow>
                let e3 = e2 @ (if timeKey \<noteq> ''''
                               then [ContainerTime oldState (Sub now before_t sdiv Millisecond)]
                               else [])
                in
                case index containerGaugeKeys newState of
                  Inl p \<Rightarrow> \<lparr>tracker = c', emitted = e3, panicked = Some p\<rparr>
                | Inr gaugeKey' \<Rightarrow>
                    \<lparr>tracker = c',
                     emitted = e3 @ (if gaugeKey' \<noteq> '''' then [ContainerGauge newState 1] else []),
                     panicked = None\<rparr>)"

definition containerState_UpdateState ::
  "containerState \<Rightarrow> Time \<Rightarrow> ContainerStateType \<Rightarrow> call \<Rightarrow> containerState outcome" where
  "containerState_UpdateState c clock newState cl =
     (case containerState_locked c clock newState of (c', now, oldState, before_t) \<Rightarrow>
        containerState_unlocked c' now oldState before_t newState cl)"

section \<open>Reading the effects of a call\<close>

fun is_hook :: "event \<Rightarrow> bool" where
  "is_hook (EnterRequestState q st) = True"
| "is_hook (ExitRequestState q st) = True"
| "is_hook (EnterContainerState q st) = True"
| "is_hook (ExitContainerState q st) = True"
| "is_hook e = False"

fun is_hot :: "event \<Rightarrow> bool" where
  "is_hot (HotFunction tg v) = True"
| "is_hot e = False"


fun is_time :: "event \<Rightarrow> bool" where
  "is_time (ContainerTime st v) = True"
| "is_time e = False"

text \<open>
  The legality check of each tracker, as the condition of the \<^verbatim>\<open>if\<close> under the
  lock reads it; a call is rejected when it is false.
\<close>

definition request_legal :: "requestState \<Rightarrow> RequestStateType \<Rightarrow> bool" where
  "request_legal c newState = (requestState.state c < newState)"

definition container_legal :: "containerState \<Rightarrow> ContainerStateType \<Rightarrow> bool" where
  "container_legal c newState =
     (containerState.state c < newState \<or>
      (containerState.state c = ContainerStatePaused \<and> newState = ContainerStateIdle) \<or>
      (containerState.state c = ContainerStateBusy \<and> isIdleState newState))"

section \<open>Sequences of calls\<close>

text \<open>
  A caller that updates one tracker again and again. \<open>request_run\<close> lists the
  tracker before the first call and after each call; \<open>container_run\<close> gives the
  tracker after the last call. A panic in one call (which the caller may recover
  from) leaves the tracker as that call updated it.
\<close>

fun request_run ::
  "requestState \<Rightarrow> (Time \<times> RequestStateType \<times> slotQueue option) list \<Rightarrow> requestState list" where
  "request_run c [] = [c]"
| "request_run c ((clock, newState, q) # rest) =
     c # request_run (tracker (requestState_UpdateState c clock newState q)) rest"

fun container_run ::
  "containerState \<Rightarrow> (Time \<times> ContainerStateType \<times> call) list \<Rightarrow> containerState" where
  "container_run c [] = c"
| "container_run c ((clock, newState, cl) # rest) =
     container_run (tracker (containerState_UpdateState c clock newState cl)) rest"

section \<open>Concurrent callers of the request tracker\<close>

text \<open>
  Several goroutines inside \<open>requestState.UpdateState\<close> on one tracker. Each is at
  one of four points: before \<^verbatim>\<open>c.lock.Lock()\<close>; after \<^verbatim>\<open>c.lock.Unlock()\<close>, at the
  test of \<^verbatim>\<open>now.IsZero()\<close>; between the two hooks; returned. The mutex lets one
  goroutine at a time run the locked part, so that part is one step; each hook call
  is a step of its own, and the hooks of different goroutines interleave freely.
  A schedule names the goroutine that takes the next step.
\<close>

datatype pc = AtLock | AtCheck | AtExit | Returned

record thread =
  t_newState :: RequestStateType
  t_slots :: "slotQueue option"
  t_clock :: Time
  t_pc :: pc
  t_now :: Time
  t_oldState :: RequestStateType

record system =
  shared :: requestState
  threads :: "thread list"
  trace :: "event list"

definition thread_step :: "system \<Rightarrow> nat \<Rightarrow> system" where
  "thread_step s i =
     (if length (threads s) \<le> i then s
      else
        let t = threads s ! i in
        case t_pc t of
          AtLock \<Rightarrow>
            (case requestState_locked (shared s) (t_clock t) (t_newState t) of
               (c', now', old') \<Rightarrow>
                 s\<lparr>shared := c',
                   threads := (threads s)[i := t\<lparr>t_pc := AtCheck, t_now := now',
                                                 t_oldState := old'\<rparr>]\<rparr>)
        | AtCheck \<Rightarrow>
            (if IsZero (t_now t) then s\<lparr>threads := (threads s)[i := t\<lparr>t_pc := Returned\<rparr>]\<rparr>
             else
               case t_slots t of
                 None \<Rightarrow> s\<lparr>threads := (threads s)[i := t\<lparr>t_pc := Returned\<rparr>]\<rparr>
               | Some q \<Rightarrow>
                   s\<lparr>threads := (threads s)[i := t\<lparr>t_pc := AtExit\<rparr>],
                     trace := trace s @ [EnterRequestState q (t_newState t)]\<rparr>)
        | AtExit \<Rightarrow>
            (case t_slots t of
               None \<Rightarrow> s\<lparr>threads := (threads s)[i := t\<lparr>t_pc := Returned\<rparr>]\<rparr>
             | Some q \<Rightarrow>
                 s\<lparr>threads := (threads s)[i := t\<lparr>t_pc := Returned\<rparr>],
                   trace := trace s @ [ExitRequestState q (t_oldState t)]\<rparr>)
        | Returned \<Rightarrow> s)"

fun exec :: "system \<Rightarrow> nat list \<Rightarrow> system" where
  "exec s [] = s"
| "exec s (i # sched) = exec (thread_step s i) sched"

text \<open>
  One goroutine per clock reading, all entering \<open>UpdateState\<close> with the same target
  state and slot queue on the tracker \<open>c\<close>.
\<close>

definition caller :: "RequestStateType \<Rightarrow> slotQueue option \<Rightarrow> Time \<Rightarrow> thread" where
  "caller newState q clock =
     \<lparr>t_newState = newState, t_slots = q, t_clock = clock, t_pc = AtLock,
      t_now = 0, t_oldState = 0\<rparr>"

definition spawn ::
  "requestState \<Rightarrow> RequestStateType \<Rightarrow> slotQueue option \<Rightarrow> Time list \<Rightarrow> system" where
  "spawn c newState q clocks =
     \<lparr>shared = c, threads = map (caller newState q) clocks, trace = []\<rparr>"

text \<open>
  The race of the claim: one goroutine per clock reading, each calling
  \<open>UpdateState(Done)\<close> with the slot queue \<open>q\<close> on a tracker that is at Wait.
\<close>

definition racers :: "Time \<Rightarrow> slotQueue \<Rightarrow> Time list \<Rightarrow> system" where
  "racers t0 q clocks =
     spawn \<lparr>requestState.state = RequestStateWait, requestState.start = t0\<rparr>
       RequestStateDone (Some q) clocks"

text \<open>The schedule that lets every goroutine take one step, three times over.\<close>

definition round_robin :: "nat \<Rightarrow> nat list" where
  "round_robin n = concat (replicate 3 [0..<n])"

text \<open>
  A system has finished when every goroutine has returned. The goroutines that took
  the branch under the lock are those whose local \<open>now\<close> is not the zero time: this
  is the test the function itself uses after unlocking.
\<close>

definition returned :: "system \<Rightarrow> bool" where
  "returned s = list_all (\<lambda>t. t_pc t = Returned) (threads s)"

definition accepting :: "system \<Rightarrow> nat list" where
  "accepting s =
     filter (\<lambda>i. \<not> IsZero (t_now (threads s ! i))) [0..<length (threads s)]"

text \<open>How far a goroutine has got.\<close>

fun pc_rank :: "pc \<Rightarrow> nat" where
  "pc_rank AtLock = 0"
| "pc_rank AtCheck = 1"
| "pc_rank AtExit = 2"
| "pc_rank Returned = 3"

text \<open>
  The invariant of the race of several \<open>UpdateState(Done)\<close> calls with slot queue
  \<open>q\<close> on a tracker that starts at Wait: while the tracker is at Wait nobody has
  passed the lock; once it is at Done exactly one goroutine holds a non-zero \<open>now\<close>,
  and the hooks called so far are the ones that goroutine has got to.
\<close>

definition thread_ok :: "slotQueue \<Rightarrow> thread \<Rightarrow> bool" where
  "thread_ok q t =
     (t_newState t = RequestStateDone \<and> t_slots t = Some q \<and> \<not> IsZero (t_clock t) \<and>
      (t_pc t = AtLock \<longrightarrow> IsZero (t_now t)) \<and>
      (t_pc t = AtExit \<longrightarrow> \<not> IsZero (t_now t)) \<and>
      (\<not> IsZero (t_now t) \<longrightarrow> t_oldState t = RequestStateWait))"

definition winner_trace :: "slotQueue \<Rightarrow> thread \<Rightarrow> event list" where
  "winner_trace q t =
     (case t_pc t of
        AtLock \<Rightarrow> []
      | AtCheck \<Rightarrow> []
      | AtExit \<Rightarrow> [EnterRequestState q RequestStateDone]
      | Returned \<Rightarrow>
          [EnterRequestState q RequestStateDone, ExitRequestState q RequestStateWait])"

definition sole_winner :: "thread list \<Rightarrow> nat \<Rightarrow> bool" where
  "sole_winner ts w =
     (w < length ts \<and> \<not> IsZero (t_now (ts ! w)) \<and>
      (\<forall>j < length ts. j \<noteq> w \<longrightarrow> IsZero (t_now (ts ! j))))"

definition race_inv :: "slotQueue \<Rightarrow> system \<Rightarrow> bool" where
  "race_inv q s =
     ((\<forall>j < length (threads s). thread_ok q (threads s ! j)) \<and>
      ((requestState.state (shared s) = RequestStateWait \<and>
        (\<forall>j < length (threads s). t_pc (threads s ! j) = AtLock) \<and> trace s = []) \<or>
       (requestState.state (shared s) = RequestStateDone \<and>
        (\<exists>w. sole_winner (threads s) w \<and> trace s = winner_trace q (threads s ! w)))))"

section \<open>Values of the constants\<close>

lemma request_consts:
  "RequestStateNone = 0" "RequestStateWait = 1" "RequestStateExec = 2"
  "RequestStateDone = 3" "RequestStateMax = 4"
  by (simp_all add: RequestStateNone_def RequestStateWait_def RequestStateExec_def
      RequestStateDone_def RequestStateMax_def iota_def RequestStateType_consts_def)

lemma container_consts:
  "ContainerStateNone = 0" "ContainerStateWait = 1" "ContainerStateStart = 2"
  "ContainerStateIdle = 3" "ContainerStatePaused = 4" "ContainerStateBusy = 5"
  "ContainerStateDone = 6" "ContainerStateMax = 7"
  by (simp_all add: ContainerStateNone_def ContainerStateWait_def ContainerStateStart_def
      ContainerStateIdle_def ContainerStatePaused_def ContainerStateBusy_def
      ContainerStateDone_def ContainerStateMax_def iota_def ContainerStateType_consts_def)

lemma table_lengths:
  "length containerStateKeys = 7" "length containerGaugeKeys = 7"
  "length containerTimeKeys = 7"
  by (simp_all add: containerStateKeys_def containerGaugeKeys_def containerTimeKeys_def
      array_lit_def container_consts)

section \<open>The locked part and the legality check\<close>

lemma requestState_locked_legal:
  "requestState_locked c clock n =
     (if request_legal c n
      then (c\<lparr>requestState.state := n, requestState.start := clock\<rparr>,
            clock, requestState.state c)
      else (c, 0, 0))"
  by (simp add: requestState_locked_def request_legal_def)

lemma containerState_locked_legal:
  "containerState_locked c clock n =
     (if container_legal c n
      then (c\<lparr>containerState.state := n, containerState.start := clock\<rparr>,
            clock, containerState.state c, containerState.start c)
      else (c, 0, 0, 0))"
  by (simp add: containerState_locked_def container_legal_def)

lemma tracker_requestState_UpdateState:
  "tracker (requestState_UpdateState c clock n q) = fst (requestState_locked c clock n)"
  by (simp add: requestState_UpdateState_def split: prod.splits)

lemma tracker_containerState_UpdateState:
  "tracker (containerState_UpdateState c clock n cl) = fst (containerState_locked c clock n)"
  by (simp add: containerState_UpdateState_def containerState_unlocked_def Let_def
      split: prod.splits sum.splits)

section \<open>The enumerations\<close>

text \<open>
  Claim C8. The request states are None = 0, Wait = 1, Exec = 2, Done = 3 and the
  container states None = 0, Wait = 1, Start = 2, Idle = 3, Paused = 4, Busy = 5,
  Done = 6; each sentinel is the number of declared states (4 and 7); the three
  tables have \<open>ContainerStateMax\<close> entries, and looking up any declared container
  state in the label table succeeds.
\<close>

theorem enumerations_and_tables:
  "request_states = [0, 1, 2, 3] \<and> RequestStateMax = 4 \<and>
   container_states = [0, 1, 2, 3, 4, 5, 6] \<and> ContainerStateMax = 7 \<and>
   RequestStateMax = int (length request_states) \<and>
   ContainerStateMax = int (length container_states) \<and>
   int (length containerStateKeys) = ContainerStateMax \<and>
   int (length containerGaugeKeys) = ContainerStateMax \<and>
   int (length containerTimeKeys) = ContainerStateMax \<and>
   map (index containerStateKeys) container_states =
     map Inr [''none'', ''wait'', ''start'', ''idle'', ''paused'', ''busy'', ''done'']"
  by (simp add: request_states_def container_states_def RequestStateNone_def
      RequestStateWait_def RequestStateExec_def RequestStateDone_def RequestStateMax_def
      RequestStateType_consts_def ContainerStateNone_def ContainerStateWait_def
      ContainerStateStart_def ContainerStateIdle_def ContainerStatePaused_def
      ContainerStateBusy_def ContainerStateDone_def ContainerStateMax_def
      ContainerStateType_consts_def iota_def containerStateKeys_def containerGaugeKeys_def
      containerTimeKeys_def array_lit_def index_def)

section \<open>Legal transitions of a container\<close>

text \<open>
  Claim C1. A call of \<open>containerState.UpdateState\<close> with current state \<open>s\<close> and
  target \<open>newState\<close> stores the target (and stamps \<open>start\<close>) exactly when
  \<open>s < newState\<close>, or \<open>(s, newState)\<close> is (Paused, Idle), or \<open>s\<close> is Busy and
  \<open>newState\<close> is Idle or Paused; for every other pair, \<open>s = newState\<close> included,
  the tracker is left as it was. This holds for all integers, so for the 49 pairs of
  declared states.
\<close>

theorem container_transition_legality:
  "tracker (containerState_UpdateState c clock newState cl) =
     (if containerState.state c < newState \<or>
         (containerState.state c, newState) = (ContainerStatePaused, ContainerStateIdle) \<or>
         (containerState.state c = ContainerStateBusy \<and>
            (newState = ContainerStateIdle \<or> newState = ContainerStatePaused))
      then c\<lparr>containerState.state := newState, containerState.start := clock\<rparr>
      else c)"
  by (auto simp add: tracker_containerState_UpdateState containerState_locked_def
      isIdleState_def container_consts)

section \<open>The request tracker only moves forward\<close>

lemma requestState_UpdateState_mono:
  "requestState.state c \<le>
     requestState.state (tracker (requestState_UpdateState c clock newState q))"
  by (simp add: tracker_requestState_UpdateState requestState_locked_def)

lemma request_run_lower:
  "x \<in> set (request_run c calls) \<Longrightarrow> requestState.state c \<le> requestState.state x"
proof (induction c calls rule: request_run.induct)
  case (1 c)
  then show ?case by simp
next
  case (2 c clock newState q rest)
  from 2 requestState_UpdateState_mono [of c clock newState q] show ?case
    by fastforce
qed

lemma request_run_sorted: "sorted (map requestState.state (request_run c calls))"
proof (induction c calls rule: request_run.induct)
  case (1 c)
  then show ?case by simp
next
  case (2 c clock newState q rest)
  let ?c' = "tracker (requestState_UpdateState c clock newState q)"
  have "requestState.state c \<le> requestState.state x" if "x \<in> set (request_run ?c' rest)" for x
  proof -
    from that have "requestState.state ?c' \<le> requestState.state x"
      by (rule request_run_lower)
    with requestState_UpdateState_mono [of c clock newState q] show ?thesis
      by simp
  qed
  with 2 show ?case by auto
qed

text \<open>
  Claim C2. A call of \<open>requestState.UpdateState\<close> never lowers the stored state; it
  stores the target and stamps \<open>start\<close> exactly when the current state is below the
  target; a call with \<open>newState \<le> state\<close> changes neither \<open>state\<close> nor \<open>start\<close>;
  and over any sequence of calls on one tracker the states observed (before the
  first call and after each call) are non-decreasing in the order of the integers,
  which is None < Wait < Exec < Done on the declared states.
\<close>

theorem request_state_monotone:
  "requestState.state c \<le>
     requestState.state (tracker (requestState_UpdateState c clock newState q)) \<and>
   tracker (requestState_UpdateState c clock newState q) =
     (if requestState.state c < newState
      then c\<lparr>requestState.state := newState, requestState.start := clock\<rparr>
      else c) \<and>
   (newState \<le> requestState.state c \<longrightarrow>
      tracker (requestState_UpdateState c clock newState q) = c) \<and>
   sorted (map requestState.state (request_run c calls))"
  by (simp add: request_run_sorted tracker_requestState_UpdateState requestState_locked_def)

theorem request_state_monotone_witness:
  "RequestStateWait \<le>
     requestState.state \<lparr>requestState.state = RequestStateExec, requestState.start = 5\<rparr> \<and>
   tracker (requestState_UpdateState
       \<lparr>requestState.state = RequestStateExec, requestState.start = 5\<rparr> 9
       RequestStateWait (Some 1)) =
     \<lparr>requestState.state = RequestStateExec, requestState.start = 5\<rparr> \<and>
   sorted (map requestState.state
     (request_run \<lparr>requestState.state = RequestStateExec, requestState.start = 5\<rparr>
        [(9, RequestStateWait, Some 1), (12, RequestStateDone, None)]))"
  using request_state_monotone
    [of "\<lparr>requestState.state = RequestStateExec, requestState.start = 5\<rparr>" 9
        RequestStateWait "Some 1" "[(9, RequestStateWait, Some 1), (12, RequestStateDone, None)]"]
  by (simp add: request_consts tracker_requestState_UpdateState requestState_locked_def)

section \<open>Rejected transitions\<close>

text \<open>
  Claim C4. When the legality check of a call fails, on the request tracker or on
  the container tracker, the call invokes no hook and records no measurement (it
  has no effect at all and does not panic), and the tracker, that is \<open>state\<close> and
  \<open>start\<close>, is exactly what it was.
\<close>

theorem rejected_transition_is_noop:
  "(\<not> request_legal c newState \<longrightarrow>
      requestState_UpdateState c clock newState q =
        \<lparr>tracker = c, emitted = [], panicked = None\<rparr>) \<and>
   (\<not> container_legal d newState' \<longrightarrow>
      containerState_UpdateState d clock' newState' cl =
        \<lparr>tracker = d, emitted = [], panicked = None\<rparr>)"
  by (simp add: requestState_UpdateState_def requestState_locked_legal
      containerState_UpdateState_def containerState_locked_legal
      containerState_unlocked_def IsZero_def)

theorem rejected_transition_is_noop_witness:
  "\<not> request_legal \<lparr>requestState.state = RequestStateDone, requestState.start = 5\<rparr>
       RequestStateExec \<and>
   requestState_UpdateState
       \<lparr>requestState.state = RequestStateDone, requestState.start = 5\<rparr> 9
       RequestStateExec (Some 1) =
     \<lparr>tracker = \<lparr>requestState.state = RequestStateDone, requestState.start = 5\<rparr>,
      emitted = [], panicked = None\<rparr> \<and>
   \<not> container_legal \<lparr>containerState.state = ContainerStateIdle, containerState.start = 5\<rparr>
       ContainerStateWait \<and>
   containerState_UpdateState
       \<lparr>containerState.state = ContainerStateIdle, containerState.start = 5\<rparr> 9
       ContainerStateWait \<lparr>AppID = ''app'', FnID = ''fn'', Image = ''img'', slots = Some 1\<rparr> =
     \<lparr>tracker = \<lparr>containerState.state = ContainerStateIdle, containerState.start = 5\<rparr>,
      emitted = [], panicked = None\<rparr>"
  using rejected_transition_is_noop
    [of "\<lparr>requestState.state = RequestStateDone, requestState.start = 5\<rparr>"
        RequestStateExec 9 "Some 1"
        "\<lparr>containerState.state = ContainerStateIdle, containerState.start = 5\<rparr>"
        ContainerStateWait 9
        "\<lparr>AppID = ''app'', FnID = ''fn'', Image = ''img'', slots = Some 1\<rparr>"]
  by (simp add: request_legal_def container_legal_def request_consts container_consts
      isIdleState_def)

section \<open>The part of a container update after the lock\<close>

lemma filter_hook_setHot: "filter is_hook (setHot a f i st) = []"
  by (simp add: setHot_def Let_def)

lemma filter_hot_setHot: "filter is_hot (setHot a f i st) = setHot a f i st"
  by (simp add: setHot_def Let_def)


lemma filter_time_setHot: "filter is_time (setHot a f i st) = []"
  by (simp add: setHot_def Let_def)

lemma tracker_unlocked: "tracker (containerState_unlocked c' nw old bf n cl) = c'"
  by (simp add: containerState_unlocked_def Let_def split: sum.splits)

text \<open>
  The hooks and the hot-delta come before the first table lookup, so they are the
  same whether or not a lookup panics afterwards.
\<close>

lemma hooks_unlocked:
  "\<not> IsZero nw \<Longrightarrow>
   filter is_hook (emitted (containerState_unlocked c' nw old bf n cl)) =
     (case slots cl of None \<Rightarrow> []
      | Some q \<Rightarrow> [EnterContainerState q n, ExitContainerState q old])"
  by (simp add: containerState_unlocked_def Let_def filter_hook_setHot
      split: sum.splits option.splits)

lemma hot_unlocked:
  "\<not> IsZero nw \<Longrightarrow>
   filter is_hot (emitted (containerState_unlocked c' nw old bf n cl)) =
     (case slots cl of None \<Rightarrow> []
      | Some q \<Rightarrow> setHot (AppID cl) (FnID cl) (Image cl) n)"
  by (simp add: containerState_unlocked_def Let_def filter_hot_setHot
      split: sum.splits option.splits)

lemma defined_cases:
  "st \<in> set container_states \<Longrightarrow>
   st = 0 \<or> st = 1 \<or> st = 2 \<or> st = 3 \<or> st = 4 \<or> st = 5 \<or> st = 6"
  by (simp add: container_states_def container_consts)

lemma gauge_key_defined:
  "st \<in> set container_states \<Longrightarrow>
   \<exists>k. index containerGaugeKeys st = Inr k \<and>
       (k = '''' \<longleftrightarrow> st = ContainerStateNone \<or> st = ContainerStateDone)"
  by (auto dest!: defined_cases
      simp add: index_def containerGaugeKeys_def array_lit_def container_consts)

lemma time_key_defined:
  "st \<in> set container_states \<Longrightarrow>
   \<exists>k. index containerTimeKeys st = Inr k \<and>
       (k = '''' \<longleftrightarrow> st = ContainerStateNone \<or> st = ContainerStateDone)"
  by (auto dest!: defined_cases
      simp add: index_def containerTimeKeys_def array_lit_def container_consts)

text \<open>With declared states no lookup panics, and the whole list of effects is known.\<close>

lemma unlocked_defined:
  assumes "\<not> IsZero nw" "old \<in> set container_states" "n \<in> set container_states"
  shows "containerState_unlocked c' nw old bf n cl =
     \<lparr>tracker = c',
      emitted =
        (case slots cl of None \<Rightarrow> []
         | Some q \<Rightarrow> setHot (AppID cl) (FnID cl) (Image cl) n @
                     [EnterContainerState q n, ExitContainerState q old]) @
        (if old = ContainerStateNone \<or> old = ContainerStateDone then []
         else [ContainerGauge old (- 1)]) @
        (if old = ContainerStateNone \<or> old = ContainerStateDone then []
         else [ContainerTime old (Sub nw bf sdiv Millisecond)]) @
        (if n = ContainerStateNone \<or> n = ContainerStateDone then []
         else [ContainerGauge n 1]),
      panicked = None\<rparr>"
proof -
  from assms(2) obtain k1 where k1: "index containerGaugeKeys old = Inr k1"
    "k1 = '''' \<longleftrightarrow> old = ContainerStateNone \<or> old = ContainerStateDone"
    using gauge_key_defined by blast
  from assms(2) obtain k2 where k2: "index containerTimeKeys old = Inr k2"
    "k2 = '''' \<longleftrightarrow> old = ContainerStateNone \<or> old = ContainerStateDone"
    using time_key_defined by blast
  from assms(3) obtain k3 where k3: "index containerGaugeKeys n = Inr k3"
    "k3 = '''' \<longleftrightarrow> n = ContainerStateNone \<or> n = ContainerStateDone"
    using gauge_key_defined by blast
  show ?thesis
    using assms(1) k1 k2 k3
    by (simp add: containerState_unlocked_def Let_def)
qed


lemma time_unlocked:
  assumes "\<not> IsZero nw" "old \<in> set container_states" "n \<in> set container_states"
  shows "filter is_time (emitted (containerState_unlocked c' nw old bf n cl)) =
        (if old = ContainerStateNone \<or> old = ContainerStateDone then []
         else [ContainerTime old (Sub nw bf sdiv Millisecond)])"
  by (simp add: unlocked_defined [OF assms] filter_time_setHot split: option.splits)

section \<open>The hot signal\<close>

text \<open>
  Claim C3, as stated, fails in two ways. A container moved to Start through a call
  that has no slot queue is accepted and emits no hot-delta, because \<open>setHot\<close> is
  called inside the \<^verbatim>\<open>if slots != nil\<close> block. And with a slot queue attached, a
  call whose image name has 256 bytes gets its hot-delta of +1 recorded without the
  identity tags, because the error of \<^verbatim>\<open>tag.New\<close> is dropped.
\<close>

theorem hot_delta_counterexample:
  "container_legal NewContainerState ContainerStateStart \<and>
   \<not> IsZero 1 \<and>
   tracker (containerState_UpdateState NewContainerState 1 ContainerStateStart
       \<lparr>AppID = ''app'', FnID = ''fn'', Image = ''img'', slots = None\<rparr>) =
     \<lparr>containerState.state = ContainerStateStart, containerState.start = 1\<rparr> \<and>
   filter is_hot (emitted (containerState_UpdateState NewContainerState 1
       ContainerStateStart \<lparr>AppID = ''app'', FnID = ''fn'', Image = ''img'', slots = None\<rparr>)) = [] \<and>
   tracker (containerState_UpdateState NewContainerState 1 ContainerStateStart
       \<lparr>AppID = ''app'', FnID = ''fn'', Image = replicate 256 (CHR ''a''),
        slots = Some 1\<rparr>) =
     \<lparr>containerState.state = ContainerStateStart, containerState.start = 1\<rparr> \<and>
   filter is_hot (emitted (containerState_UpdateState NewContainerState 1
       ContainerStateStart
       \<lparr>AppID = ''app'', FnID = ''fn'', Image = replicate 256 (CHR ''a''),
        slots = Some 1\<rparr>)) = [HotFunction None 1]"
  by (simp add: container_legal_def NewContainerState_def IsZero_def container_consts
      containerState_UpdateState_def containerState_locked_def containerState_unlocked_def
      index_def table_lengths containerGaugeKeys_def containerTimeKeys_def array_lit_def
      setHot_def tag_New_def checkValue_def Let_def)

text \<open>
  Claim C3, amended. For every accepted container transition (the clock not reading
  the zero instant) whose call has a slot queue attached: if \<open>newState\<close> is Start,
  exactly one hot-delta of +1 is emitted; if it is Done, exactly one of -1; for any
  other \<open>newState\<close>, none. The hot-delta is tagged with the call's (AppID, FnID,
  Image) when each of the three strings is a valid tag value (at most 255 bytes of
  printable ASCII), and is recorded without these tags otherwise. When the call has
  no slot queue, no hot-delta is emitted whatever \<open>newState\<close> is.
\<close>

theorem hot_delta_with_slot_queue:
  "container_legal c newState \<and> \<not> IsZero clock \<longrightarrow>
     filter is_hot (emitted (containerState_UpdateState c clock newState cl)) =
       (case slots cl of
          None \<Rightarrow> []
        | Some q \<Rightarrow>
            if newState = ContainerStateStart
            then [HotFunction
                    (if checkValue (AppID cl) \<and> checkValue (FnID cl) \<and> checkValue (Image cl)
                     then Some (AppID cl, FnID cl, Image cl) else None) 1]
            else if newState = ContainerStateDone
            then [HotFunction
                    (if checkValue (AppID cl) \<and> checkValue (FnID cl) \<and> checkValue (Image cl)
                     then Some (AppID cl, FnID cl, Image cl) else None) (- 1)]
            else [])"
  by (simp add: containerState_UpdateState_def containerState_locked_legal hot_unlocked
      setHot_def tag_New_def Let_def container_consts split: option.splits)

theorem hot_delta_with_slot_queue_witness:
  "(container_legal \<lparr>containerState.state = ContainerStateWait, containerState.start = 5\<rparr> ContainerStateStart \<and> \<not> IsZero 9) \<and>
   filter is_hot (emitted (containerState_UpdateState \<lparr>containerState.state = ContainerStateWait, containerState.start = 5\<rparr> 9
       ContainerStateStart \<lparr>AppID = ''app'', FnID = ''fn'', Image = ''img'', slots = Some 1\<rparr>)) =
     [HotFunction (Some (''app'', ''fn'', ''img'')) 1] \<and>
   (container_legal \<lparr>containerState.state = ContainerStateBusy, containerState.start = 5\<rparr> ContainerStateDone \<and> \<not> IsZero 9) \<and>
   filter is_hot (emitted (containerState_UpdateState \<lparr>containerState.state = ContainerStateBusy, containerState.start = 5\<rparr> 9
       ContainerStateDone \<lparr>AppID = ''app'', FnID = ''fn'', Image = ''img'', slots = Some 1\<rparr>)) =
     [HotFunction (Some (''app'', ''fn'', ''img'')) (- 1)] \<and>
   filter is_hot (emitted (containerState_UpdateState \<lparr>containerState.state = ContainerStateBusy, containerState.start = 5\<rparr> 9
       ContainerStateDone
       \<lparr>AppID = [CHR 0x0A], FnID = ''fn'', Image = ''img'', slots = Some 1\<rparr>)) =
     [HotFunction None (- 1)]"
  using hot_delta_with_slot_queue [of "\<lparr>containerState.state = ContainerStateWait, containerState.start = 5\<rparr>" ContainerStateStart 9
      "\<lparr>AppID = ''app'', FnID = ''fn'', Image = ''img'', slots = Some 1\<rparr>"]
    hot_delta_with_slot_queue [of "\<lparr>containerState.state = ContainerStateBusy, containerState.start = 5\<rparr>" ContainerStateDone 9
      "\<lparr>AppID = ''app'', FnID = ''fn'', Image = ''img'', slots = Some 1\<rparr>"]
    hot_delta_with_slot_queue [of "\<lparr>containerState.state = ContainerStateBusy, containerState.start = 5\<rparr>" ContainerStateDone 9
      "\<lparr>AppID = [CHR 0x0A], FnID = ''fn'', Image = ''img'', slots = Some 1\<rparr>"]
  by (simp add: container_legal_def isIdleState_def IsZero_def container_consts
      checkValue_def)

section \<open>Gauges\<close>



section \<open>Durations\<close>

text \<open>
  Claim C6. For every accepted container transition between declared states (the
  clock not reading the zero instant, the elapsed time within the range of a
  \<^verbatim>\<open>time.Duration\<close>): when the previous state is neither None nor Done, exactly
  one duration observation is emitted, on the previous state's measure, and its
  value is the clock reading of this call minus the stored \<open>start\<close>, in
  nanoseconds, divided by 1000000 with truncation towards zero; when the previous
  state is None or Done, none is emitted. The second half says what the stored
  \<open>start\<close> is: when the previous state \<open>st\<close> was entered by an accepted call at
  \<open>entered\<close>, the value is \<open>clock - entered\<close> truncated to milliseconds.
\<close>

theorem duration_observation:
  "(container_legal c newState \<and> \<not> IsZero clock \<and>
    containerState.state c \<in> set container_states \<and> newState \<in> set container_states \<and>
    - (2 ^ 63) \<le> clock - containerState.start c \<and>
    clock - containerState.start c < 2 ^ 63 \<longrightarrow>
     filter is_time (emitted (containerState_UpdateState c clock newState cl)) =
       (if containerState.state c = ContainerStateNone \<or>
           containerState.state c = ContainerStateDone
        then []
        else [ContainerTime (containerState.state c)
                ((clock - containerState.start c) sdiv 1000000)])) \<and>
   (container_legal c0 st \<and>
    container_legal (tracker (containerState_UpdateState c0 entered st cl0)) newState \<and>
    \<not> IsZero clock \<and> st \<in> set container_states \<and> newState \<in> set container_states \<and>
    - (2 ^ 63) \<le> clock - entered \<and> clock - entered < 2 ^ 63 \<longrightarrow>
     filter is_time (emitted (containerState_UpdateState
         (tracker (containerState_UpdateState c0 entered st cl0)) clock newState cl)) =
       (if st = ContainerStateNone \<or> st = ContainerStateDone then []
        else [ContainerTime st ((clock - entered) sdiv 1000000)]))"
proof -
  have one: "container_legal k newState \<and> \<not> IsZero clock \<and>
    containerState.state k \<in> set container_states \<and> newState \<in> set container_states \<and>
    - (2 ^ 63) \<le> clock - containerState.start k \<and>
    clock - containerState.start k < 2 ^ 63 \<longrightarrow>
     filter is_time (emitted (containerState_UpdateState k clock newState cl)) =
       (if containerState.state k = ContainerStateNone \<or>
           containerState.state k = ContainerStateDone
        then []
        else [ContainerTime (containerState.state k)
                ((clock - containerState.start k) sdiv 1000000)])" for k
    by (simp add: containerState_UpdateState_def containerState_locked_legal time_unlocked
        Sub_def minDuration_def maxDuration_def Millisecond_def)
  have two: "tracker (containerState_UpdateState c0 entered st cl0) =
      c0\<lparr>containerState.state := st, containerState.start := entered\<rparr>"
    if "container_legal c0 st"
    using that by (simp add: tracker_containerState_UpdateState containerState_locked_legal)
  show ?thesis
  proof (intro conjI impI)
    assume "container_legal c newState \<and> \<not> IsZero clock \<and>
      containerState.state c \<in> set container_states \<and> newState \<in> set container_states \<and>
      - (2 ^ 63) \<le> clock - containerState.start c \<and>
      clock - containerState.start c < 2 ^ 63"
    with one [of c]
    show "filter is_time (emitted (containerState_UpdateState c clock newState cl)) =
       (if containerState.state c = ContainerStateNone \<or>
           containerState.state c = ContainerStateDone
        then []
        else [ContainerTime (containerState.state c)
                ((clock - containerState.start c) sdiv 1000000)])"
      by blast
  next
    let ?k = "c0\<lparr>containerState.state := st, containerState.start := entered\<rparr>"
    assume a: "container_legal c0 st \<and>
      container_legal (tracker (containerState_UpdateState c0 entered st cl0)) newState \<and>
      \<not> IsZero clock \<and> st \<in> set container_states \<and> newState \<in> set container_states \<and>
      - (2 ^ 63) \<le> clock - entered \<and> clock - entered < 2 ^ 63"
    then have k: "tracker (containerState_UpdateState c0 entered st cl0) = ?k"
      by (simp add: two)
    from a k have "container_legal ?k newState \<and> \<not> IsZero clock \<and>
      containerState.state ?k \<in> set container_states \<and> newState \<in> set container_states \<and>
      - (2 ^ 63) \<le> clock - containerState.start ?k \<and>
      clock - containerState.start ?k < 2 ^ 63"
      by simp
    with one [of ?k]
    have "filter is_time (emitted (containerState_UpdateState ?k clock newState cl)) =
       (if containerState.state ?k = ContainerStateNone \<or>
           containerState.state ?k = ContainerStateDone
        then []
        else [ContainerTime (containerState.state ?k)
                ((clock - containerState.start ?k) sdiv 1000000)])"
      by blast
    with k show "filter is_time (emitted (containerState_UpdateState
         (tracker (containerState_UpdateState c0 entered st cl0)) clock newState cl)) =
       (if st = ContainerStateNone \<or> st = ContainerStateDone then []
        else [ContainerTime st ((clock - entered) sdiv 1000000)])"
      by simp
  qed
qed

theorem duration_observation_witness:
  "(container_legal \<lparr>containerState.state = ContainerStateStart, containerState.start = 1000000000\<rparr> ContainerStateIdle \<and>
    \<not> IsZero 1002999999 \<and>
    containerState.state \<lparr>containerState.state = ContainerStateStart, containerState.start = 1000000000\<rparr> \<in> set container_states \<and>
    ContainerStateIdle \<in> set container_states \<and>
    - (2 ^ 63) \<le> 1002999999 - containerState.start \<lparr>containerState.state = ContainerStateStart, containerState.start = 1000000000\<rparr> \<and>
    1002999999 - containerState.start \<lparr>containerState.state = ContainerStateStart, containerState.start = 1000000000\<rparr> < 2 ^ 63) \<and>
   filter is_time (emitted (containerState_UpdateState \<lparr>containerState.state = ContainerStateStart, containerState.start = 1000000000\<rparr>
       1002999999 ContainerStateIdle \<lparr>AppID = ''app'', FnID = ''fn'', Image = ''img'', slots = None\<rparr>)) =
     [ContainerTime ContainerStateStart 2] \<and>
   (container_legal NewContainerState ContainerStateStart \<and>
    container_legal (tracker (containerState_UpdateState NewContainerState 1000000000
        ContainerStateStart \<lparr>AppID = ''app'', FnID = ''fn'', Image = ''img'', slots = None\<rparr>)) ContainerStateIdle \<and>
    \<not> IsZero 1002999999 \<and> ContainerStateStart \<in> set container_states \<and>
    ContainerStateIdle \<in> set container_states \<and>
    - (2 ^ 63) \<le> (1002999999 :: int) - 1000000000 \<and>
    (1002999999 :: int) - 1000000000 < 2 ^ 63) \<and>
   filter is_time (emitted (containerState_UpdateState
       (tracker (containerState_UpdateState NewContainerState 1000000000
          ContainerStateStart \<lparr>AppID = ''app'', FnID = ''fn'', Image = ''img'', slots = None\<rparr>)) 1002999999 ContainerStateIdle \<lparr>AppID = ''app'', FnID = ''fn'', Image = ''img'', slots = None\<rparr>)) =
     [ContainerTime ContainerStateStart 2]"
  using duration_observation [of "\<lparr>containerState.state = ContainerStateStart, containerState.start = 1000000000\<rparr>" ContainerStateIdle
      1002999999 "\<lparr>AppID = ''app'', FnID = ''fn'', Image = ''img'', slots = None\<rparr>" NewContainerState ContainerStateStart 1000000000 "\<lparr>AppID = ''app'', FnID = ''fn'', Image = ''img'', slots = None\<rparr>"]
  by (simp add: container_legal_def isIdleState_def IsZero_def container_consts
      container_states_def NewContainerState_def tracker_containerState_UpdateState
      containerState_locked_def signed_divide_int_def)

section \<open>Slot queue hooks\<close>

text \<open>
  Claim C7. For every accepted transition (the clock not reading the zero instant)
  on either tracker: with a slot queue attached, the hooks called are the enter hook
  with the new state and then the exit hook with the previous state, each once and
  in that order; with no slot queue, no hook is called; in both cases the tracker
  holds the new state and the new \<open>start\<close>.
\<close>

theorem notifier_hooks_in_order:
  "(request_legal c newState \<and> \<not> IsZero clock \<longrightarrow>
      requestState_UpdateState c clock newState q =
        \<lparr>tracker = c\<lparr>requestState.state := newState, requestState.start := clock\<rparr>,
         emitted = (case q of None \<Rightarrow> []
                    | Some a \<Rightarrow> [EnterRequestState a newState,
                                 ExitRequestState a (requestState.state c)]),
         panicked = None\<rparr>) \<and>
   (container_legal d newState' \<and> \<not> IsZero clock' \<longrightarrow>
      tracker (containerState_UpdateState d clock' newState' cl) =
        d\<lparr>containerState.state := newState', containerState.start := clock'\<rparr> \<and>
      filter is_hook (emitted (containerState_UpdateState d clock' newState' cl)) =
        (case slots cl of None \<Rightarrow> []
         | Some a \<Rightarrow> [EnterContainerState a newState',
                      ExitContainerState a (containerState.state d)]))"
  by (simp add: requestState_UpdateState_def requestState_locked_legal tracker_unlocked
      containerState_UpdateState_def containerState_locked_legal hooks_unlocked)

theorem notifier_hooks_in_order_witness:
  "(request_legal \<lparr>requestState.state = RequestStateWait, requestState.start = 5\<rparr> RequestStateDone \<and> \<not> IsZero 9) \<and>
   requestState_UpdateState \<lparr>requestState.state = RequestStateWait, requestState.start = 5\<rparr> 9 RequestStateDone (Some 1) =
     \<lparr>tracker = \<lparr>requestState.state = RequestStateDone, requestState.start = 9\<rparr>,
      emitted = [EnterRequestState 1 RequestStateDone, ExitRequestState 1 RequestStateWait],
      panicked = None\<rparr> \<and>
   (container_legal \<lparr>containerState.state = ContainerStateBusy, containerState.start = 5\<rparr> ContainerStateIdle \<and> \<not> IsZero 9) \<and>
   tracker (containerState_UpdateState \<lparr>containerState.state = ContainerStateBusy, containerState.start = 5\<rparr> 9 ContainerStateIdle
       \<lparr>AppID = ''app'', FnID = ''fn'', Image = ''img'', slots = Some 1\<rparr>) =
     \<lparr>containerState.state = ContainerStateIdle, containerState.start = 9\<rparr> \<and>
   filter is_hook (emitted (containerState_UpdateState \<lparr>containerState.state = ContainerStateBusy, containerState.start = 5\<rparr> 9
       ContainerStateIdle \<lparr>AppID = ''app'', FnID = ''fn'', Image = ''img'', slots = Some 1\<rparr>)) =
     [EnterContainerState 1 ContainerStateIdle, ExitContainerState 1 ContainerStateBusy]"
  using notifier_hooks_in_order [of "\<lparr>requestState.state = RequestStateWait, requestState.start = 5\<rparr>" RequestStateDone 9 "Some 1"
      "\<lparr>containerState.state = ContainerStateBusy, containerState.start = 5\<rparr>" ContainerStateIdle 9 "\<lparr>AppID = ''app'', FnID = ''fn'', Image = ''img'', slots = Some 1\<rparr>"]
  by (simp add: request_legal_def container_legal_def isIdleState_def IsZero_def
      request_consts container_consts)

section \<open>The label of a container's state\<close>

lemma container_step_defined:
  "containerState.state c \<in> set container_states \<Longrightarrow> n \<in> set container_states \<Longrightarrow>
   containerState.state (tracker (containerState_UpdateState c clock n cl))
     \<in> set container_states"
  by (simp add: tracker_containerState_UpdateState containerState_locked_def)

lemma container_run_defined:
  "containerState.state c \<in> set container_states \<Longrightarrow>
   list_all (\<lambda>(clock, n, cl). n \<in> set container_states) calls \<Longrightarrow>
   containerState.state (container_run c calls) \<in> set container_states"
proof (induction c calls rule: container_run.induct)
  case (1 c)
  then show ?case by simp
next
  case (2 c clock newState cl rest)
  then show ?case by (simp add: container_step_defined)
qed

lemma GetState_defined:
  "containerState.state c \<in> set container_states \<Longrightarrow>
   \<exists>l \<in> set [''none'', ''wait'', ''start'', ''idle'', ''paused'', ''busy'', ''done''].
     containerState_GetState c = Inr l"
  by (auto dest!: defined_cases
      simp add: containerState_GetState_def index_def containerStateKeys_def array_lit_def
        container_consts)

text \<open>
  Claim C10. \<open>GetState\<close> on a fresh container tracker returns "none", and after any
  sequence of \<open>UpdateState\<close> calls whose targets are declared states it returns one
  of the seven labels: the index is within the label table and the lookup does not
  panic.
\<close>

theorem GetState_returns_label:
  "containerState_GetState NewContainerState = Inr ''none'' \<and>
   (list_all (\<lambda>(clock, newState, cl). newState \<in> set container_states) calls \<longrightarrow>
     (\<exists>l \<in> set [''none'', ''wait'', ''start'', ''idle'', ''paused'', ''busy'', ''done''].
        containerState_GetState (container_run NewContainerState calls) = Inr l))"
proof -
  have init: "containerState.state NewContainerState \<in> set container_states"
    by (simp add: NewContainerState_def container_states_def container_consts)
  have "containerState_GetState NewContainerState = Inr ''none''"
    by (simp add: containerState_GetState_def NewContainerState_def index_def
        containerStateKeys_def array_lit_def container_consts)
  with init show ?thesis
    by (blast intro: GetState_defined container_run_defined)
qed

theorem GetState_returns_label_witness:
  "list_all (\<lambda>(clock, newState, cl). newState \<in> set container_states)
     [(5, ContainerStateWait, \<lparr>AppID = ''app'', FnID = ''fn'', Image = ''img'', slots = None\<rparr>), (9, ContainerStateBusy, \<lparr>AppID = ''app'', FnID = ''fn'', Image = ''img'', slots = None\<rparr>),
      (12, ContainerStateStart, \<lparr>AppID = ''app'', FnID = ''fn'', Image = ''img'', slots = None\<rparr>), (15, ContainerStateIdle, \<lparr>AppID = ''app'', FnID = ''fn'', Image = ''img'', slots = Some 1\<rparr>)] \<and>
   containerState_GetState (container_run NewContainerState
     [(5, ContainerStateWait, \<lparr>AppID = ''app'', FnID = ''fn'', Image = ''img'', slots = None\<rparr>), (9, ContainerStateBusy, \<lparr>AppID = ''app'', FnID = ''fn'', Image = ''img'', slots = None\<rparr>),
      (12, ContainerStateStart, \<lparr>AppID = ''app'', FnID = ''fn'', Image = ''img'', slots = None\<rparr>), (15, ContainerStateIdle, \<lparr>AppID = ''app'', FnID = ''fn'', Image = ''img'', slots = Some 1\<rparr>)]) \<in>
     Inr ` set [''none'', ''wait'', ''start'', ''idle'', ''paused'', ''busy'', ''done'']"
  using GetState_returns_label [of "[(5, ContainerStateWait, \<lparr>AppID = ''app'', FnID = ''fn'', Image = ''img'', slots = None\<rparr>),
      (9, ContainerStateBusy, \<lparr>AppID = ''app'', FnID = ''fn'', Image = ''img'', slots = None\<rparr>), (12, ContainerStateStart, \<lparr>AppID = ''app'', FnID = ''fn'', Image = ''img'', slots = None\<rparr>),
      (15, ContainerStateIdle, \<lparr>AppID = ''app'', FnID = ''fn'', Image = ''img'', slots = Some 1\<rparr>)]"]
  by (simp add: container_states_def container_consts)

section \<open>Racing callers of the request tracker\<close>

lemma thread_step_out: "length (threads s) \<le> i \<Longrightarrow> thread_step s i = s"
  by (simp add: thread_step_def)

lemma thread_step_Returned:
  "i < length (threads s) \<Longrightarrow> t_pc (threads s ! i) = Returned \<Longrightarrow> thread_step s i = s"
  by (simp add: thread_step_def)

lemma thread_step_AtLock:
  "i < length (threads s) \<Longrightarrow> t_pc (threads s ! i) = AtLock \<Longrightarrow>
   thread_step s i =
     (if requestState.state (shared s) < t_newState (threads s ! i)
      then s\<lparr>shared := (shared s)\<lparr>requestState.state := t_newState (threads s ! i),
                                   requestState.start := t_clock (threads s ! i)\<rparr>,
             threads := (threads s)[i := (threads s ! i)\<lparr>t_pc := AtCheck,
                 t_now := t_clock (threads s ! i),
                 t_oldState := requestState.state (shared s)\<rparr>]\<rparr>
      else s\<lparr>shared := shared s,
             threads := (threads s)[i := (threads s ! i)\<lparr>t_pc := AtCheck, t_now := 0,
                 t_oldState := 0\<rparr>]\<rparr>)"
  by (simp add: thread_step_def requestState_locked_def Let_def)

lemma thread_step_AtCheck:
  "i < length (threads s) \<Longrightarrow> t_pc (threads s ! i) = AtCheck \<Longrightarrow>
   thread_step s i =
     (if IsZero (t_now (threads s ! i))
      then s\<lparr>threads := (threads s)[i := (threads s ! i)\<lparr>t_pc := Returned\<rparr>]\<rparr>
      else case t_slots (threads s ! i) of
             None \<Rightarrow> s\<lparr>threads := (threads s)[i := (threads s ! i)\<lparr>t_pc := Returned\<rparr>]\<rparr>
           | Some q \<Rightarrow>
               s\<lparr>threads := (threads s)[i := (threads s ! i)\<lparr>t_pc := AtExit\<rparr>],
                 trace := trace s @ [EnterRequestState q (t_newState (threads s ! i))]\<rparr>)"
  by (simp add: thread_step_def Let_def)

lemma thread_step_AtExit:
  "i < length (threads s) \<Longrightarrow> t_pc (threads s ! i) = AtExit \<Longrightarrow>
   thread_step s i =
     (case t_slots (threads s ! i) of
        None \<Rightarrow> s\<lparr>threads := (threads s)[i := (threads s ! i)\<lparr>t_pc := Returned\<rparr>]\<rparr>
      | Some q \<Rightarrow>
          s\<lparr>threads := (threads s)[i := (threads s ! i)\<lparr>t_pc := Returned\<rparr>],
            trace := trace s @ [ExitRequestState q (t_oldState (threads s ! i))]\<rparr>)"
  by (simp add: thread_step_def Let_def)

lemma race_inv_step:
  assumes inv: "race_inv q s"
  shows "race_inv q (thread_step s i)"
proof (cases "i < length (threads s)")
  case False
  with inv show ?thesis by (simp add: thread_step_out)
next
  case i: True
  let ?t = "threads s ! i"
  from inv i have ok: "thread_ok q ?t" by (simp add: race_inv_def)
  from inv have oks: "\<forall>j < length (threads s). thread_ok q (threads s ! j)"
    by (simp add: race_inv_def)
  show ?thesis
  proof (cases "t_pc ?t")
    case Returned
    with inv i show ?thesis by (simp add: thread_step_Returned)
  next
    case AtLock
    show ?thesis
    proof (cases "requestState.state (shared s) = RequestStateWait")
      case True
      with inv have allLock: "\<forall>j < length (threads s). t_pc (threads s ! j) = AtLock"
        and tr: "trace s = []"
        by (auto simp add: race_inv_def request_consts)
      from allLock oks have zeros: "\<forall>j < length (threads s). IsZero (t_now (threads s ! j))"
        by (auto simp add: thread_ok_def)
      from True ok i AtLock allLock tr oks zeros show ?thesis
        by (auto simp add: thread_step_AtLock race_inv_def thread_ok_def sole_winner_def
            winner_trace_def nth_list_update request_consts intro!: exI [of _ i])
    next
      case False
      with inv obtain w where st: "requestState.state (shared s) = RequestStateDone"
        and w: "sole_winner (threads s) w" and tr: "trace s = winner_trace q (threads s ! w)"
        by (auto simp add: race_inv_def)
      from ok AtLock have "IsZero (t_now ?t)" by (simp add: thread_ok_def)
      with w have wi: "w \<noteq> i" by (auto simp add: sole_winner_def)
      from st ok i AtLock w tr oks wi show ?thesis
        by (auto simp add: thread_step_AtLock race_inv_def thread_ok_def sole_winner_def
            nth_list_update request_consts IsZero_def intro!: exI [of _ w])
    qed
  next
    case AtCheck
    with inv i obtain w where st: "requestState.state (shared s) = RequestStateDone"
      and w: "sole_winner (threads s) w" and tr: "trace s = winner_trace q (threads s ! w)"
      by (auto simp add: race_inv_def)
    show ?thesis
    proof (cases "IsZero (t_now ?t)")
      case True
      with w have wi: "w \<noteq> i" by (auto simp add: sole_winner_def)
      from True st ok i AtCheck w tr oks wi show ?thesis
        by (auto simp add: thread_step_AtCheck race_inv_def thread_ok_def sole_winner_def
            nth_list_update intro!: exI [of _ w])
    next
      case False
      with w i have wi: "w = i" by (auto simp add: sole_winner_def)
      from False st ok i AtCheck w tr oks wi show ?thesis
        by (auto simp add: thread_step_AtCheck race_inv_def thread_ok_def sole_winner_def
            winner_trace_def nth_list_update intro!: exI [of _ i])
    qed
  next
    case AtExit
    with inv i obtain w where st: "requestState.state (shared s) = RequestStateDone"
      and w: "sole_winner (threads s) w" and tr: "trace s = winner_trace q (threads s ! w)"
      by (auto simp add: race_inv_def)
    from ok AtExit have nz: "\<not> IsZero (t_now ?t)" by (simp add: thread_ok_def)
    with w i have wi: "w = i" by (auto simp add: sole_winner_def)
    from nz st ok i AtExit w tr oks wi show ?thesis
      by (auto simp add: thread_step_AtExit race_inv_def thread_ok_def sole_winner_def
          winner_trace_def nth_list_update intro!: exI [of _ i])
  qed
qed

lemma race_inv_exec: "race_inv q s \<Longrightarrow> race_inv q (exec s sched)"
  by (induction sched arbitrary: s) (simp_all add: race_inv_step)

lemma race_inv_spawn:
  "\<forall>clk \<in> set clocks. \<not> IsZero clk \<Longrightarrow>
   race_inv q (spawn \<lparr>requestState.state = RequestStateWait, requestState.start = t0\<rparr>
      RequestStateDone (Some q) clocks)"
  by (simp add: race_inv_def spawn_def caller_def thread_ok_def IsZero_def)

lemma thread_step_length [simp]: "length (threads (thread_step s i)) = length (threads s)"
  by (simp add: thread_step_def Let_def split: pc.splits option.splits prod.splits)

lemma thread_step_other:
  "j \<noteq> i \<Longrightarrow> threads (thread_step s i) ! j = threads s ! j"
  by (simp add: thread_step_def Let_def split: pc.splits option.splits prod.splits)

lemma thread_step_self:
  "i < length (threads s) \<Longrightarrow>
   min 3 (Suc (pc_rank (t_pc (threads s ! i)))) \<le> pc_rank (t_pc (threads (thread_step s i) ! i))"
  by (cases "t_pc (threads s ! i)")
     (simp_all add: thread_step_def Let_def split: option.splits prod.splits)

lemma pc_rank_le: "pc_rank p \<le> 3"
  by (cases p) simp_all

lemma thread_step_mono:
  "pc_rank (t_pc (threads s ! j)) \<le> pc_rank (t_pc (threads (thread_step s i) ! j))"
proof (cases "j = i \<and> i < length (threads s)")
  case True
  then have "min 3 (Suc (pc_rank (t_pc (threads s ! j))))
      \<le> pc_rank (t_pc (threads (thread_step s i) ! j))"
    using thread_step_self [of i s] by blast
  moreover have "pc_rank (t_pc (threads s ! j)) \<le> 3"
    by (rule pc_rank_le)
  ultimately show ?thesis
    by linarith
next
  case False
  then show ?thesis
    by (auto simp add: thread_step_other thread_step_out)
qed

lemma exec_length [simp]: "length (threads (exec s sched)) = length (threads s)"
  by (induction sched arbitrary: s) simp_all

lemma exec_mono:
  "pc_rank (t_pc (threads s ! j)) \<le> pc_rank (t_pc (threads (exec s sched) ! j))"
proof (induction sched arbitrary: s)
  case Nil
  show ?case by simp
next
  case (Cons i sched)
  from thread_step_mono [of s j i] Cons [of "thread_step s i"] show ?case
    by simp
qed

lemma exec_advances:
  "j < length (threads s) \<Longrightarrow> j \<in> set sched \<Longrightarrow>
   min 3 (Suc (pc_rank (t_pc (threads s ! j)))) \<le> pc_rank (t_pc (threads (exec s sched) ! j))"
proof (induction sched arbitrary: s)
  case Nil
  then show ?case by simp
next
  case (Cons i sched)
  show ?case
  proof (cases "j = i")
    case True
    with Cons.prems thread_step_self [of i s] exec_mono [of "thread_step s i" i sched]
    show ?thesis by simp
  next
    case False
    with Cons.prems have "j \<in> set sched" by simp
    with Cons.IH [of "thread_step s i"] Cons.prems
    have "min 3 (Suc (pc_rank (t_pc (threads (thread_step s i) ! j))))
        \<le> pc_rank (t_pc (threads (exec (thread_step s i) sched) ! j))"
      by simp
    with thread_step_mono [of s j i] show ?thesis by simp
  qed
qed

lemma exec_append: "exec s (a @ b) = exec (exec s a) b"
  by (induction a arbitrary: s) simp_all

lemma round_robin_returned:
  assumes "n = length (threads s)"
  shows "returned (exec s (round_robin n))"
proof -
  let ?s1 = "exec s [0..<n]"
  let ?s2 = "exec ?s1 [0..<n]"
  let ?s3 = "exec ?s2 [0..<n]"
  have rr: "exec s (round_robin n) = ?s3"
    by (simp add: round_robin_def numeral_3_eq_3 exec_append)
  have "pc_rank (t_pc (threads ?s3 ! j)) = 3" if j: "j < n" for j
  proof -
    from j assms exec_advances [of j s "[0..<n]"]
    have 1: "1 \<le> pc_rank (t_pc (threads ?s1 ! j))" by simp
    from j assms exec_advances [of j ?s1 "[0..<n]"]
    have "min 3 (Suc (pc_rank (t_pc (threads ?s1 ! j)))) \<le> pc_rank (t_pc (threads ?s2 ! j))"
      by simp
    with 1 have 2: "2 \<le> pc_rank (t_pc (threads ?s2 ! j))" by simp
    from j assms exec_advances [of j ?s2 "[0..<n]"]
    have "min 3 (Suc (pc_rank (t_pc (threads ?s2 ! j)))) \<le> pc_rank (t_pc (threads ?s3 ! j))"
      by simp
    with 2 have "3 \<le> pc_rank (t_pc (threads ?s3 ! j))" by simp
    moreover have "pc_rank p \<le> 3" for p by (cases p) simp_all
    ultimately show ?thesis by (simp add: le_antisym)
  qed
  then have "t_pc (threads ?s3 ! j) = Returned" if "j < n" for j
    using that by (cases "t_pc (threads ?s3 ! j)") fastforce+
  with assms show ?thesis
    unfolding rr by (simp add: returned_def list_all_length)
qed

lemma filter_single: "w < n \<Longrightarrow> filter (\<lambda>i. i = w) [0..<n] = [w]"
  by (induction n) (auto simp add: less_Suc_eq)

lemma sole_winner_accepting:
  assumes "sole_winner (threads s) w"
  shows "accepting s = [w]"
proof -
  from assms have "filter (\<lambda>i. \<not> IsZero (t_now (threads s ! i))) [0..<length (threads s)]
      = filter (\<lambda>i. i = w) [0..<length (threads s)]"
    by (intro filter_cong) (auto simp add: sole_winner_def)
  with assms show ?thesis
    by (simp add: accepting_def filter_single sole_winner_def)
qed

lemma race_final:
  assumes inv: "race_inv q s" and r: "returned s" and ne: "threads s \<noteq> []"
  shows "length (accepting s) = 1 \<and>
    trace s = [EnterRequestState q RequestStateDone, ExitRequestState q RequestStateWait] \<and>
    requestState.state (shared s) = RequestStateDone"
proof -
  from ne have pos: "0 < length (threads s)" by simp
  with r have "t_pc (threads s ! 0) = Returned"
    by (simp add: returned_def list_all_length)
  with pos have "\<not> (\<forall>j < length (threads s). t_pc (threads s ! j) = AtLock)"
    by (metis pc.distinct(5))
  with inv have "requestState.state (shared s) = RequestStateDone \<and>
      (\<exists>w. sole_winner (threads s) w \<and> trace s = winner_trace q (threads s ! w))"
    unfolding race_inv_def by blast
  then obtain w where st: "requestState.state (shared s) = RequestStateDone"
    and w: "sole_winner (threads s) w" and tr: "trace s = winner_trace q (threads s ! w)"
    by blast
  from w have "w < length (threads s)" by (simp add: sole_winner_def)
  with r have "t_pc (threads s ! w) = Returned"
    by (simp add: returned_def list_all_length)
  with tr have "trace s =
      [EnterRequestState q RequestStateDone, ExitRequestState q RequestStateWait]"
    by (simp add: winner_trace_def)
  moreover from w have "length (accepting s) = 1"
    by (simp add: sole_winner_accepting)
  ultimately show ?thesis using st by simp
qed

text \<open>One goroutine alone does what the sequential function does.\<close>

lemma single_caller_agrees:
  "shared (exec (spawn c newState q [clock]) [0, 0, 0]) =
     tracker (requestState_UpdateState c clock newState q) \<and>
   trace (exec (spawn c newState q [clock]) [0, 0, 0]) =
     emitted (requestState_UpdateState c clock newState q) \<and>
   returned (exec (spawn c newState q [clock]) [0, 0, 0])"
  by (simp add: spawn_def caller_def thread_step_def requestState_UpdateState_def
      requestState_locked_def returned_def Let_def IsZero_def split: option.splits)

text \<open>
  Claim C9. Any number (at least one) of goroutines call \<open>UpdateState(Done)\<close> with
  the same attached slot queue on one request tracker that is at Wait, and no clock
  reads the zero instant. Whatever the schedule: the calls can always all be brought
  to return (one more round-robin pass of three steps each does it), and once all
  have returned exactly one of them has seen itself take the transition (its \<open>now\<close>
  is non-zero), the hooks called in total are one enter hook with Done and one exit
  hook with Wait, in this order, and the tracker is at Done.
\<close>

theorem single_winner_race:
  "clocks \<noteq> [] \<and> (\<forall>clk \<in> set clocks. \<not> IsZero clk) \<longrightarrow>
     returned (exec (racers t0 q clocks) (sched @ round_robin (length clocks))) \<and>
     (returned (exec (racers t0 q clocks) sched) \<longrightarrow>
        length (accepting (exec (racers t0 q clocks) sched)) = 1 \<and>
        trace (exec (racers t0 q clocks) sched) =
          [EnterRequestState q RequestStateDone, ExitRequestState q RequestStateWait] \<and>
        requestState.state (shared (exec (racers t0 q clocks) sched)) = RequestStateDone)"
proof -
  define init where "init = racers t0 q clocks"
  have len: "length (threads init) = length clocks"
    by (simp add: init_def racers_def spawn_def)
  have fin: "returned (exec init (sched @ round_robin (length clocks)))"
    using round_robin_returned [of "length clocks" "exec init sched"] len
    by (simp add: exec_append)
  have safe: "length (accepting (exec init sched)) = 1 \<and>
      trace (exec init sched) =
        [EnterRequestState q RequestStateDone, ExitRequestState q RequestStateWait] \<and>
      requestState.state (shared (exec init sched)) = RequestStateDone"
    if a: "clocks \<noteq> [] \<and> (\<forall>clk \<in> set clocks. \<not> IsZero clk)"
      and r: "returned (exec init sched)"
  proof (rule race_final [OF _ r])
    from a show "race_inv q (exec init sched)"
      unfolding init_def racers_def by (simp add: race_inv_exec race_inv_spawn)
    from a len have "length (threads (exec init sched)) \<noteq> 0" by simp
    then show "threads (exec init sched) \<noteq> []"
      by (simp only: length_0_conv not_False_eq_True)
  qed
  from fin safe show ?thesis
    unfolding init_def by blast
qed

theorem single_winner_race_witness:
  "([10, 11, 12] \<noteq> ([] :: Time list) \<and> list_all (\<lambda>clk. \<not> IsZero clk) [10, 11, 12]) \<and>
   returned (exec (racers 5 7 [10, 11, 12]) [1, 0, 2, 1, 2, 0, 1, 0]) \<and>
   length (accepting (exec (racers 5 7 [10, 11, 12]) [1, 0, 2, 1, 2, 0, 1, 0])) = 1 \<and>
   trace (exec (racers 5 7 [10, 11, 12]) [1, 0, 2, 1, 2, 0, 1, 0]) =
     [EnterRequestState 7 RequestStateDone, ExitRequestState 7 RequestStateWait]"
proof -
  have h: "[10, 11, 12] \<noteq> ([] :: Time list) \<and> (\<forall>clk \<in> set [10, 11, 12]. \<not> IsZero clk)"
    by (simp add: IsZero_def)
  have r: "returned (exec (racers 5 7 [10, 11, 12]) [1, 0, 2, 1, 2, 0, 1, 0])"
    by (simp add: racers_def spawn_def caller_def thread_step_def requestState_locked_def
        returned_def Let_def IsZero_def request_consts)
  from single_winner_race [of "[10, 11, 12]" 5 7 "[1, 0, 2, 1, 2, 0, 1, 0]"] h r
  show ?thesis
    by (simp add: IsZero_def)
qed

end
